theory Spec2Isabelle
  imports Main "HOL-Library.Sublist"
begin

section \<open>The shared browser module (common script)\<close>

text \<open>
  The module exports \<^verbatim>\<open>attachFilterListeners\<close>, \<^verbatim>\<open>finalizeLoading\<close>,
  \<^verbatim>\<open>handleInitializationError\<close>, \<^verbatim>\<open>loadSqlDatabase\<close> and \<^verbatim>\<open>setupDebouncedInput\<close>.
  JavaScript values are modelled by the kinds the functions distinguish; DOM elements are
  references into a store of their mutable properties; a thrown exception is a value.
\<close>

subsection \<open>JavaScript values, errors and the DOM\<close>

type_synonym elem = nat

datatype error_kind = Error | SyntaxError | TypeError | URIError

text \<open>An error object: its constructor and its \<^verbatim>\<open>message\<close> property.\<close>

datatype js_error = JsError (kind: error_kind) (message: string)

text \<open>
  The argument \<^verbatim>\<open>selectorOrElement(s)\<close>: \<^verbatim>\<open>undefined\<close>, \<^verbatim>\<open>null\<close>, a string, a DOM
  element, or a collection (array, NodeList) whose entries may be \<^verbatim>\<open>null\<close>.
\<close>

datatype target = Undefined | Null | Str string | Element elem | Collection "elem option list"

text \<open>\<^verbatim>\<open>!x\<close> for those kinds: the empty string is falsy, objects are truthy.\<close>

fun falsy :: "target \<Rightarrow> bool" where
  "falsy Undefined = True"
| "falsy Null = True"
| "falsy (Str s) = (s = [])"
| "falsy (Element e) = False"
| "falsy (Collection es) = False"

text \<open>
  The document as the lookups the module uses. \<^verbatim>\<open>querySelectorAll\<close> gives the matches in
  document order, or \<open>None\<close> where the browser throws a \<^verbatim>\<open>SyntaxError\<close> for a selector
  it cannot parse.
\<close>

record document =
  getElementById :: "string \<Rightarrow> elem option"
  querySelectorAll :: "string \<Rightarrow> elem list option"

definition selector_error :: js_error where
  "selector_error = JsError SyntaxError ''not a valid selector''"

definition querySelector :: "document \<Rightarrow> string \<Rightarrow> js_error + elem option" where
  "querySelector doc sel =
     (case querySelectorAll doc sel of
        None \<Rightarrow> Inl selector_error
      | Some [] \<Rightarrow> Inr None
      | Some (e # es) \<Rightarrow> Inr (Some e))"

text \<open>
  A registered listener is either a caller's handler or the closure that
  \<^verbatim>\<open>setupDebouncedInput\<close> creates: the latter captures its own \<^verbatim>\<open>timeoutId\<close> variable
  (a cell of the state), the handler and the delay.
\<close>

datatype 'h listener = Plain 'h | DebouncedInput nat 'h nat

text \<open>The function \<^verbatim>\<open>setupDebouncedInput\<close> returns: \<^verbatim>\<open>() => {}\<close>, or the closure that clears the timer.\<close>

datatype canceller = Noop | ClearPending nat

record 'h element =
  display :: string
  innerHTML :: string
  listeners :: "(string \<times> 'h listener) list"

text \<open>
  The state the module mutates: element properties, the console, the closures' \<^verbatim>\<open>timeoutId\<close>
  variables (\<open>None\<close> is \<^verbatim>\<open>null\<close>), and the window's timers: the clock in milliseconds, the last
  handle \<^verbatim>\<open>setTimeout\<close> returned, the pending timers (handle, due time, callback) and the log
  of callbacks run (handle, time, callback).
\<close>

record 'h state =
  elements :: "elem \<Rightarrow> 'h element"
  console :: "(string \<times> js_error) list"
  cells :: "nat \<Rightarrow> nat option"
  next_cell :: nat
  now :: nat
  last_handle :: nat
  pending :: "(nat \<times> nat \<times> 'h) list"
  calls :: "(nat \<times> nat \<times> 'h) list"



text \<open>\<^verbatim>\<open>addEventListener\<close>: a listener already registered for the event type is not added twice.\<close>

definition addEventListener :: "elem \<Rightarrow> string \<Rightarrow> 'h listener \<Rightarrow> 'h state \<Rightarrow> 'h state" where
  "addEventListener e ty l s =
     (if (ty, l) \<in> set (listeners (elements s e)) then s
      else s\<lparr>elements := (elements s)(e := (elements s e)\<lparr>listeners := listeners (elements s e) @ [(ty, l)]\<rparr>)\<rparr>)"

subsection \<open>Timers of the window\<close>

text \<open>
  \<^verbatim>\<open>setTimeout\<close> returns a fresh handle, an integer greater than zero, and arms a timer due
  \<open>delay\<close> milliseconds from now; \<^verbatim>\<open>clearTimeout\<close> drops the pending timer with that handle,
  if there is one.
\<close>

definition setTimeout :: "'h \<Rightarrow> nat \<Rightarrow> 'h state \<Rightarrow> nat \<times> 'h state" where
  "setTimeout cb delay s =
     (let h = Suc (last_handle s)
      in (h, s\<lparr>last_handle := h, pending := pending s @ [(h, now s + delay, cb)]\<rparr>))"

definition clearTimeout :: "nat \<Rightarrow> 'h state \<Rightarrow> 'h state" where
  "clearTimeout h s = s\<lparr>pending := filter (\<lambda>(i, due, cb). i \<noteq> h) (pending s)\<rparr>"

text \<open>
  The clock moves to \<open>t\<close>: the timers due by then run, earliest first, each logged with its
  handle and due time, and leave the pending list.
\<close>

definition tick :: "nat \<Rightarrow> 'h state \<Rightarrow> 'h state" where
  "tick t s =
     s\<lparr>now := max (now s) t,
       calls := calls s @ sort_key (\<lambda>(i, due, cb). due) (filter (\<lambda>(i, due, cb). due \<le> t) (pending s)),
       pending := filter (\<lambda>(i, due, cb). \<not> due \<le> t) (pending s)\<rparr>"

subsection \<open>resolveElements and resolveElement\<close>


definition resolveElement :: "document \<Rightarrow> target \<Rightarrow> js_error + elem option" where
  "resolveElement doc x =
     (if falsy x then Inr None
      else (case x of
              Str sel \<Rightarrow> querySelector doc sel
            | Element e \<Rightarrow> Inr (Some e)
            | _ \<Rightarrow> Inr None))"

subsection \<open>finalizeLoading and handleInitializationError\<close>










subsection \<open>attachFilterListeners\<close>

text \<open>
  \<^verbatim>\<open>forEach\<close> over the resolved elements. Calling \<^verbatim>\<open>addEventListener\<close> on a \<^verbatim>\<open>null\<close> entry
  throws a \<^verbatim>\<open>TypeError\<close>; the listeners added before it stay.
\<close>

fun add_each :: "elem option list \<Rightarrow> string \<Rightarrow> 'h listener \<Rightarrow> 'h state \<Rightarrow> 'h state \<times> js_error option" where
  "add_each [] ty l s = (s, None)"
| "add_each (None # es) ty l s = (s, Some (JsError TypeError ''Cannot read properties of null''))"
| "add_each (Some e # es) ty l s = add_each es ty l (addEventListener e ty l s)"


subsection \<open>setupDebouncedInput\<close>

text \<open>\<^verbatim>\<open>if (timeoutId)\<close>: \<^verbatim>\<open>null\<close> and 0 are falsy.\<close>

fun armed :: "nat option \<Rightarrow> bool" where
  "armed None = False"
| "armed (Some h) = (h \<noteq> 0)"

text \<open>The listener registered for \<^verbatim>\<open>input\<close>, on the closure's cell \<open>c\<close>.\<close>

definition input_listener :: "nat \<Rightarrow> 'h \<Rightarrow> nat \<Rightarrow> 'h state \<Rightarrow> 'h state" where
  "input_listener c handler delay s =
     (let s1 = (if armed (cells s c) then clearTimeout (the (cells s c)) s else s);
          (h, s2) = setTimeout handler delay s1
      in s2\<lparr>cells := (cells s2)(c := Some h)\<rparr>)"


text \<open>The delay defaults to 300 when the caller passes none.\<close>

definition setupDebouncedInput ::
  "document \<Rightarrow> target \<Rightarrow> 'h \<Rightarrow> nat option \<Rightarrow> 'h state \<Rightarrow> 'h state \<times> (js_error + canceller)" where
  "setupDebouncedInput doc x handler delay s =
     (case resolveElement doc x of
        Inl err \<Rightarrow> (s, Inl err)
      | Inr None \<Rightarrow> (s, Inr Noop)
      | Inr (Some e) \<Rightarrow>
          (let c = next_cell s;
               s1 = s\<lparr>cells := (cells s)(c := None), next_cell := Suc c\<rparr>;
               d = (case delay of None \<Rightarrow> 300 | Some n \<Rightarrow> n)
           in (addEventListener e ''input'' (DebouncedInput c handler d) s1, Inr (ClearPending c))))"

text \<open>
  The browser delivering an event to a listener at time \<open>t\<close>: the timers due by \<open>t\<close>
  run first, then the listener. A caller's handler is opaque: its call is logged with
  handle 0, which no timer has.
\<close>

fun run_listener :: "'h listener \<Rightarrow> 'h state \<Rightarrow> 'h state" where
  "run_listener (Plain handler) s = s\<lparr>calls := calls s @ [(0, now s, handler)]\<rparr>"
| "run_listener (DebouncedInput c handler delay) s = input_listener c handler delay s"

definition event_at :: "'h listener \<Rightarrow> nat \<Rightarrow> 'h state \<Rightarrow> 'h state" where
  "event_at l t s = run_listener l (tick t s)"

text \<open>A sequence of events, given by their times, delivered to one listener.\<close>

definition events_at :: "'h listener \<Rightarrow> nat list \<Rightarrow> 'h state \<Rightarrow> 'h state" where
  "events_at l ts s = fold (event_at l) ts s"

text \<open>Consecutive events are in order and less than \<open>d\<close> milliseconds apart.\<close>

fun spaced :: "nat \<Rightarrow> nat list \<Rightarrow> bool" where
  "spaced d [] = True"
| "spaced d [t] = True"
| "spaced d (t # t' # ts) = (t \<le> t' \<and> t' < t + d \<and> spaced d (t' # ts))"

text \<open>The timers and calls whose handle was given out after handle \<open>L\<close>.\<close>

definition after_handle :: "nat \<Rightarrow> (nat \<times> nat \<times> 'h) list \<Rightarrow> (nat \<times> nat \<times> 'h) list" where
  "after_handle L xs = filter (\<lambda>(i, t, cb). L < i) xs"

text \<open>Exactly one timer of the closure is pending: the one armed by the \<open>k\<close>-th event, at time \<open>t\<close>.\<close>

definition own_timer :: "nat \<Rightarrow> nat \<Rightarrow> 'h \<Rightarrow> nat \<Rightarrow> nat \<Rightarrow> nat \<Rightarrow> 'h state \<Rightarrow> bool" where
  "own_timer L c h d k t s \<longleftrightarrow>
     last_handle s = L + k \<and> 0 < k \<and> cells s c = Some (L + k) \<and> now s = t \<and>
     after_handle L (pending s) = [(L + k, t + d, h)]"

subsection \<open>loadSqlDatabase\<close>

text \<open>
  The collaborators of \<^verbatim>\<open>loadSqlDatabase\<close>. Each awaited call either yields a value or
  rejects with an error, which the \<^verbatim>\<open>async\<close> function passes on to its caller. The global
  \<^verbatim>\<open>initSqlJs\<close> is \<open>None\<close> when it is not a function; called with the \<^verbatim>\<open>locateFile\<close>
  callback it yields the library, whose \<^verbatim>\<open>Database\<close> constructor takes the bytes.
  \<^verbatim>\<open>fetch\<close> takes the path and the \<^verbatim>\<open>cache\<close> option.
\<close>

type_synonym bytes = "char list"

record fetch_response =
  ok :: bool
  arrayBuffer :: "js_error + bytes"

record 'db sql_library =
  Database :: "bytes \<Rightarrow> js_error + 'db"

record 'db browser =
  initSqlJs :: "((string \<Rightarrow> string) \<Rightarrow> js_error + 'db sql_library) option"
  fetch :: "string \<Rightarrow> string \<Rightarrow> js_error + fetch_response"

record load_options =
  dbPath :: "string option"
  sqlJsVersion :: "string option"

definition SQL_JS_VERSION :: string where
  "SQL_JS_VERSION = ''1.8.0''"

definition DEFAULT_DB_PATH :: string where
  "DEFAULT_DB_PATH = ''dawncaster-cards.db''"

definition locateFile :: "string \<Rightarrow> string \<Rightarrow> string" where
  "locateFile version file = ''https://cdnjs.cloudflare.com/ajax/libs/sql.js/'' @ version @ ''/'' @ file"

text \<open>
  The result is what the promise settles with (\<open>Inl\<close>: the error it rejects with) and the
  requests made, each the path and the cache mode.
\<close>

definition loadSqlDatabase :: "'db browser \<Rightarrow> load_options \<Rightarrow> (js_error + 'db) \<times> (string \<times> string) list" where
  "loadSqlDatabase env opts =
     (let path = (case dbPath opts of None \<Rightarrow> DEFAULT_DB_PATH | Some p \<Rightarrow> p);
          version = (case sqlJsVersion opts of None \<Rightarrow> SQL_JS_VERSION | Some v \<Rightarrow> v)
      in case initSqlJs env of
           None \<Rightarrow> (Inl (JsError Error ''sql.js library not loaded''), [])
         | Some init \<Rightarrow>
            (case init (locateFile version) of
               Inl e \<Rightarrow> (Inl e, [])
             | Inr SQL \<Rightarrow>
                (case fetch env path ''no-store'' of
                   Inl e \<Rightarrow> (Inl e, [(path, ''no-store'')])
                 | Inr response \<Rightarrow>
                    if \<not> ok response then
                      (Inl (JsError Error ''Failed to load database file''), [(path, ''no-store'')])
                    else
                      (case arrayBuffer response of
                         Inl e \<Rightarrow> (Inl e, [(path, ''no-store'')])
                       | Inr buffer \<Rightarrow> (Database SQL buffer, [(path, ''no-store'')])))))"

section \<open>The static file server\<close>

subsection \<open>Strings: split, decodeURIComponent, startsWith\<close>

text \<open>
  Strings are byte lists: a JavaScript string is modelled by its UTF-8 encoding, so that
  \<^verbatim>\<open>/\<close>, \<^verbatim>\<open>.\<close>, \<^verbatim>\<open>?\<close> and \<^verbatim>\<open>%\<close> are single characters and \<^verbatim>\<open>startsWith\<close> is list prefix.
  \<^verbatim>\<open>urlPath.split("?")[0]\<close> is the text before the first question mark.
\<close>

definition before_query :: "string \<Rightarrow> string" where
  "before_query u = takeWhile (\<lambda>c. c \<noteq> CHR ''?'') u"

fun hex_digit :: "char \<Rightarrow> nat option" where
  "hex_digit c =
     (let n = of_char c :: nat
      in if 48 \<le> n \<and> n \<le> 57 then Some (n - 48)
         else if 65 \<le> n \<and> n \<le> 70 then Some (n - 55)
         else if 97 \<le> n \<and> n \<le> 102 then Some (n - 87)
         else None)"

text \<open>
  \<^verbatim>\<open>decodeURIComponent\<close> in two passes. The first reads the escapes: a \<^verbatim>\<open>%\<close> that two
  hexadecimal digits do not follow is a \<^verbatim>\<open>URIError\<close> (\<open>None\<close>).
\<close>

datatype unit_item = Lit char | Esc nat

fun unescape :: "string \<Rightarrow> unit_item list option" where
  "unescape [] = Some []"
| "unescape (c # cs) =
     (if c \<noteq> CHR ''%'' then map_option (Cons (Lit c)) (unescape cs)
      else (case cs of
              h1 # h2 # rest \<Rightarrow>
                (case (hex_digit h1, hex_digit h2) of
                   (Some a, Some b) \<Rightarrow> map_option (Cons (Esc (16 * a + b))) (unescape rest)
                 | _ \<Rightarrow> None)
            | _ \<Rightarrow> None))"

text \<open>
  The second pass: an escaped byte below 128 is that character; a higher one must start
  a well-formed UTF-8 sequence of escaped bytes (continuation bytes, no overlong form,
  no surrogate, at most U+10FFFF), which stands for one code point and stays as its
  UTF-8 bytes; anything else is a \<^verbatim>\<open>URIError\<close>.
\<close>

definition continuation :: "nat \<Rightarrow> bool" where
  "continuation b \<longleftrightarrow> 128 \<le> b \<and> b < 192"

definition two_bytes_ok :: "nat \<Rightarrow> nat \<Rightarrow> bool" where
  "two_bytes_ok b b1 \<longleftrightarrow> continuation b1 \<and> 128 \<le> (b - 192) * 64 + (b1 - 128)"

definition three_bytes_ok :: "nat \<Rightarrow> nat \<Rightarrow> nat \<Rightarrow> bool" where
  "three_bytes_ok b b1 b2 \<longleftrightarrow>
     continuation b1 \<and> continuation b2 \<and>
     (let cp = (b - 224) * 4096 + (b1 - 128) * 64 + (b2 - 128)
      in 2048 \<le> cp \<and> \<not> (55296 \<le> cp \<and> cp \<le> 57343))"

definition four_bytes_ok :: "nat \<Rightarrow> nat \<Rightarrow> nat \<Rightarrow> nat \<Rightarrow> bool" where
  "four_bytes_ok b b1 b2 b3 \<longleftrightarrow>
     continuation b1 \<and> continuation b2 \<and> continuation b3 \<and>
     (let cp = (b - 240) * 262144 + (b1 - 128) * 4096 + (b2 - 128) * 64 + (b3 - 128)
      in 65536 \<le> cp \<and> cp \<le> 1114111)"

fun utf8_units :: "unit_item list \<Rightarrow> string option" where
  "utf8_units [] = Some []"
| "utf8_units (Lit c # xs) = map_option (Cons c) (utf8_units xs)"
| "utf8_units (Esc b # xs) =
     (if b < 128 then map_option (Cons (char_of b)) (utf8_units xs)
      else if 192 \<le> b \<and> b < 224 then
        (case xs of
           Esc b1 # ys \<Rightarrow>
             if two_bytes_ok b b1 then map_option (\<lambda>r. char_of b # char_of b1 # r) (utf8_units ys)
             else None
         | _ \<Rightarrow> None)
      else if 224 \<le> b \<and> b < 240 then
        (case xs of
           Esc b1 # Esc b2 # ys \<Rightarrow>
             if three_bytes_ok b b1 b2
             then map_option (\<lambda>r. char_of b # char_of b1 # char_of b2 # r) (utf8_units ys)
             else None
         | _ \<Rightarrow> None)
      else if 240 \<le> b \<and> b < 248 then
        (case xs of
           Esc b1 # Esc b2 # Esc b3 # ys \<Rightarrow>
             if four_bytes_ok b b1 b2 b3
             then map_option (\<lambda>r. char_of b # char_of b1 # char_of b2 # char_of b3 # r) (utf8_units ys)
             else None
         | _ \<Rightarrow> None)
      else None)"

definition decodeURIComponent :: "string \<Rightarrow> string option" where
  "decodeURIComponent u = (case unescape u of None \<Rightarrow> None | Some xs \<Rightarrow> utf8_units xs)"

subsection \<open>path.resolve and path.extname (POSIX)\<close>

fun split_on :: "char \<Rightarrow> string \<Rightarrow> string list" where
  "split_on d [] = [[]]"
| "split_on d (c # cs) =
     (if c = d then [] # split_on d cs
      else (case split_on d cs of
              w # ws \<Rightarrow> (c # w) # ws
            | [] \<Rightarrow> [[c]]))"

fun join_with :: "string \<Rightarrow> string list \<Rightarrow> string" where
  "join_with d [] = []"
| "join_with d [w] = w"
| "join_with d (w # ws) = w @ d @ join_with d ws"

text \<open>
  One segment of \<^verbatim>\<open>normalizeString\<close>: empty and \<^verbatim>\<open>.\<close> segments are dropped, \<^verbatim>\<open>..\<close> removes
  the segment before it; with nothing to remove it is dropped, or kept when the path is
  relative (\<open>up\<close>).
\<close>

definition normalize_step :: "bool \<Rightarrow> string list \<Rightarrow> string \<Rightarrow> string list" where
  "normalize_step up st seg =
     (if seg = [] \<or> seg = ''.'' then st
      else if seg = ''..'' then
        (if st \<noteq> [] \<and> last st \<noteq> ''..'' then butlast st
         else if up then st @ [''..'']
         else st)
      else st @ [seg])"

definition normalizeString :: "string \<Rightarrow> bool \<Rightarrow> string" where
  "normalizeString p up = join_with ''/'' (foldl (normalize_step up) [] (split_on CHR ''/'' p))"

text \<open>
  \<^verbatim>\<open>path.resolve\<close>: the arguments are taken from the right, then the working directory,
  until an absolute one is met; empty ones are skipped. \<open>resolve_from\<close> gets them in that
  order.
\<close>

fun resolve_from :: "string list \<Rightarrow> string \<Rightarrow> string \<times> bool" where
  "resolve_from [] acc = (acc, False)"
| "resolve_from (p # ps) acc =
     (if p = [] then resolve_from ps acc
      else if hd p = CHR ''/'' then (p @ ''/'' @ acc, True)
      else resolve_from ps (p @ ''/'' @ acc))"

definition path_resolve :: "string \<Rightarrow> string list \<Rightarrow> string" where
  "path_resolve cwd args =
     (let (joined, absolute) = resolve_from (rev args @ [cwd]) [];
          normal = normalizeString joined (\<not> absolute)
      in if absolute then ''/'' @ normal
         else if normal \<noteq> [] then normal
         else ''.'')"

text \<open>
  \<^verbatim>\<open>path.extname\<close> of a resolved path: from the last dot of the last segment, unless that
  dot starts the segment, there is none, or the segment is \<^verbatim>\<open>..\<close>.
\<close>

definition extname :: "string \<Rightarrow> string" where
  "extname p =
     (let base = last (split_on CHR ''/'' p);
          stem = rev (drop 1 (dropWhile (\<lambda>c. c \<noteq> CHR ''.'') (rev base)))
      in if CHR ''.'' \<notin> set base \<or> stem = [] \<or> base = ''..'' then []
         else drop (length stem) base)"

text \<open>\<^verbatim>\<open>toLowerCase\<close> on the ASCII letters, the only ones the keys of the table have.\<close>

definition toLowerCase :: "string \<Rightarrow> string" where
  "toLowerCase w =
     map (\<lambda>c. let n = of_char c :: nat in if 65 \<le> n \<and> n \<le> 90 then char_of (n + 32) else c) w"

definition mimeTypes :: "(string \<times> string) list" where
  "mimeTypes =
     [(''.html'', ''text/html; charset=utf-8''),
      (''.css'', ''text/css; charset=utf-8''),
      (''.js'', ''application/javascript; charset=utf-8''),
      (''.mjs'', ''application/javascript; charset=utf-8''),
      (''.json'', ''application/json; charset=utf-8''),
      (''.db'', ''application/octet-stream''),
      (''.wasm'', ''application/wasm''),
      (''.ico'', ''image/x-icon''),
      (''.png'', ''image/png''),
      (''.svg'', ''image/svg+xml''),
      (''.txt'', ''text/plain; charset=utf-8'')]"

subsection \<open>resolvePath and the request handler\<close>

text \<open>
  The process: its working directory and the script's directory \<^verbatim>\<open>__dirname\<close>.
  \<^verbatim>\<open>rootDir\<close> is the parent of the script's directory.
\<close>

record process =
  cwd :: string
  dirname :: string

definition rootDir :: "process \<Rightarrow> string" where
  "rootDir pr = path_resolve (cwd pr) [dirname pr, ''..'']"

text \<open>\<open>Inl\<close>: the \<^verbatim>\<open>URIError\<close> thrown by \<^verbatim>\<open>decodeURIComponent\<close>; \<open>Inr None\<close>: \<^verbatim>\<open>null\<close>.\<close>

definition resolvePath :: "process \<Rightarrow> string \<Rightarrow> js_error + string option" where
  "resolvePath pr urlPath =
     (case decodeURIComponent (before_query urlPath) of
        None \<Rightarrow> Inl (JsError URIError ''URI malformed'')
      | Some decoded \<Rightarrow>
          (let relativePath = (if decoded = ''/'' then ''/index.html'' else decoded);
               fullPath = path_resolve (cwd pr) [rootDir pr, ''.'' @ relativePath]
           in if \<not> prefix (rootDir pr) fullPath then Inr None
              else Inr (Some fullPath)))"

text \<open>
  The file system: what a path names, if anything. \<^verbatim>\<open>stat\<close> rejects for a path that names
  nothing; \<^verbatim>\<open>readFile\<close> yields the bytes of a file.
\<close>

datatype fs_node = File bytes | Directory

datatype header_value = HText string | HNumber nat

record http_response =
  statusCode :: nat
  headers :: "(string \<times> header_value) list"
  body :: string

text \<open>
  What the handler does with a request: the response it ends, or the error its promise
  rejects with (nothing is sent then); and the paths it read with \<^verbatim>\<open>readFile\<close>.
  \<^verbatim>\<open>req.url\<close> is \<open>None\<close> when undefined.
\<close>

datatype served = Responded http_response | Rejected js_error

definition plain_response :: "nat \<Rightarrow> string \<Rightarrow> http_response" where
  "plain_response code text = \<lparr>statusCode = code, headers = [], body = text\<rparr>"

definition handle_request ::
  "process \<Rightarrow> (string \<Rightarrow> fs_node option) \<Rightarrow> string option \<Rightarrow> served \<times> string list" where
  "handle_request pr fs url =
     (case url of
        None \<Rightarrow> (Responded (plain_response 400 ''Bad Request''), [])
      | Some u \<Rightarrow>
          if u = [] then (Responded (plain_response 400 ''Bad Request''), [])
          else
            (case resolvePath pr u of
               Inl err \<Rightarrow> (Rejected err, [])
             | Inr None \<Rightarrow> (Responded (plain_response 403 ''Forbidden''), [])
             | Inr (Some filePath) \<Rightarrow>
                 (case fs filePath of
                    None \<Rightarrow> (Responded (plain_response 404 ''Not Found''), [])
                  | Some Directory \<Rightarrow> (Responded (plain_response 403 ''Forbidden''), [])
                  | Some (File buffer) \<Rightarrow>
                      (let ext = toLowerCase (extname filePath);
                           mimeType = (case map_of mimeTypes ext of
                                         None \<Rightarrow> ''application/octet-stream''
                                       | Some m \<Rightarrow> m)
                       in (Responded \<lparr>statusCode = 200,
                                       headers = [(''Content-Type'', HText mimeType),
                                                  (''Content-Length'', HNumber (length buffer))],
                                       body = buffer\<rparr>,
                           [filePath])))))"

section \<open>The fetch-cache-render pipeline\<close>

text \<open>
  The pages' own scripts (the Detail Cache and the Refresh Orchestrator) are not among
  the sources; the definitions of this section follow the specification's sections 3 and 4.
\<close>

subsection \<open>Detail Cache\<close>

text \<open>Modelled from the spec: how a detail request settles, with the DetailRecord or as
  a failure (the Detail Cache's code is missing).\<close>

datatype 'd fetched = Resolved 'd | Failed

text \<open>Modelled from the spec: the CacheEntry of section 3, a pending request, a resolved
  DetailRecord or a recorded fetch error (the Detail Cache's code is missing).\<close>

datatype 'd cache_entry = InFlight | Stored 'd | FetchError

text \<open>Modelled from the spec: the Detail Cache's state (its code is missing): the entry of
  each identifier, the network requests issued so far, the callers that share a pending
  request, and what each call has resolved or rejected with.\<close>

record ('i, 'c, 'd) detail_cache =
  entries :: "'i \<Rightarrow> 'd cache_entry option"
  requests :: "'i list"
  waiters :: "('c \<times> 'i) list"
  settled :: "('c \<times> 'i \<times> 'd fetched) list"

text \<open>Modelled from the spec: the cache at page load, with no entry (the Detail Cache's code
  is missing).\<close>

definition empty_cache :: "('i, 'c, 'd) detail_cache" where
  "empty_cache = \<lparr>entries = (\<lambda>i. None), requests = [], waiters = [], settled = []\<rparr>"

text \<open>Modelled from the spec: \<^verbatim>\<open>getDetail(id)\<close> by caller \<open>c\<close>, the three steps of section 4.3
  (the Detail Cache's code is missing): a resolved entry is returned at once; a pending
  request is shared; otherwise, also after a recorded failure, a request is issued and
  stored as pending.\<close>

definition getDetail :: "'c \<Rightarrow> 'i \<Rightarrow> ('i, 'c, 'd) detail_cache \<Rightarrow> ('i, 'c, 'd) detail_cache" where
  "getDetail c i k =
     (case entries k i of
        Some (Stored d) \<Rightarrow> k\<lparr>settled := settled k @ [(c, i, Resolved d)]\<rparr>
      | Some InFlight \<Rightarrow> k\<lparr>waiters := waiters k @ [(c, i)]\<rparr>
      | _ \<Rightarrow> k\<lparr>entries := (entries k)(i \<mapsto> InFlight),
               requests := requests k @ [i],
               waiters := waiters k @ [(c, i)]\<rparr>)"

text \<open>Modelled from the spec: the pending request for \<open>i\<close> completes (the Detail Cache's code
  is missing): the entry stores the DetailRecord or records the failure, and every caller
  that shares the request gets that outcome. With no pending request nothing happens.\<close>

definition settle :: "'i \<Rightarrow> 'd fetched \<Rightarrow> ('i, 'c, 'd) detail_cache \<Rightarrow> ('i, 'c, 'd) detail_cache" where
  "settle i r k =
     (case entries k i of
        Some InFlight \<Rightarrow>
          k\<lparr>entries := (entries k)(i \<mapsto> (case r of Resolved d \<Rightarrow> Stored d | Failed \<Rightarrow> FetchError)),
            settled := settled k @ map (\<lambda>(c, j). (c, j, r)) (filter (\<lambda>(c, j). j = i) (waiters k)),
            waiters := filter (\<lambda>(c, j). j \<noteq> i) (waiters k)\<rparr>
      | _ \<Rightarrow> k)"

text \<open>Modelled from the spec: what can happen to the cache between suspension points, a call
  or the completion of a request (the Detail Cache's code is missing).\<close>

datatype ('i, 'c, 'd) cache_event = Get 'c 'i | Settle 'i "'d fetched"

text \<open>Modelled from the spec: one event applied to the cache (the Detail Cache's code is
  missing).\<close>

fun cache_step :: "('i, 'c, 'd) cache_event \<Rightarrow> ('i, 'c, 'd) detail_cache \<Rightarrow> ('i, 'c, 'd) detail_cache" where
  "cache_step (Get c i) k = getDetail c i k"
| "cache_step (Settle i r) k = settle i r k"

text \<open>Modelled from the spec: the identifier an event is about (the Detail Cache's code is
  missing).\<close>

fun event_id :: "('i, 'c, 'd) cache_event \<Rightarrow> 'i" where
  "event_id (Get c i) = i"
| "event_id (Settle i r) = i"

text \<open>Modelled from the spec: whether an event is a \<^verbatim>\<open>getDetail\<close> call (the Detail Cache's code
  is missing).\<close>

fun is_call :: "('i, 'c, 'd) cache_event \<Rightarrow> bool" where
  "is_call (Get c i) = True"
| "is_call (Settle i r) = False"


text \<open>Modelled from the spec: a single logical thread runs the events one after the other
  (section 5; the Detail Cache's code is missing).\<close>

definition cache_run :: "('i, 'c, 'd) cache_event list \<Rightarrow> ('i, 'c, 'd) detail_cache \<Rightarrow> ('i, 'c, 'd) detail_cache" where
  "cache_run es k = fold cache_step es k"

text \<open>Modelled from the spec: what the call of \<open>c\<close> for \<open>i\<close> settled with, if it has settled
  (the Detail Cache's code is missing).\<close>

definition result_for :: "'c \<Rightarrow> 'i \<Rightarrow> ('i, 'c, 'd) detail_cache \<Rightarrow> 'd fetched option" where
  "result_for c i k = map_of (map (\<lambda>(c', j, r). ((c', j), r)) (settled k)) (c, i)"

subsection \<open>Refresh Orchestrator, Sanitizer and Renderer\<close>

text \<open>Modelled from the spec: a SummaryRecord, the identifier and the list-displayable text
  fields, and a DetailRecord, its text fields (the pages' scripts are missing).\<close>

type_synonym 'i summary = "'i \<times> string list"

type_synonym detail = "string list"

text \<open>Modelled from the spec: a row of the table, with full detail or with the fallback
  representation of a record whose detail fetch failed (the Renderer's code is missing).\<close>

datatype 'i row = FullRow 'i "string list" "string list" | FallbackRow 'i "string list"

text \<open>Modelled from the spec: what the page shows, nothing yet, the table or the error state
  of a failed list query (the pages' scripts are missing).\<close>

datatype 'i view = Blank | Table "'i row list" | ErrorState string

text \<open>Modelled from the spec: the state of a refresh cycle that has not ended, per the state
  machine of section 4.4 (the Refresh Orchestrator's code is missing).\<close>

datatype 'i phase = ListFetching | DetailFetching "'i summary list"

text \<open>Modelled from the spec: the orchestrator's state (its code is missing): the shared
  Detail Cache, whose callers are the cycles' tokens; the latest RefreshToken; the cycles
  in progress; and the writes to the DOM, each with the token of the cycle that made it.\<close>

record 'i pipeline =
  cache :: "('i, nat, detail) detail_cache"
  latest :: nat
  cycles :: "nat \<Rightarrow> 'i phase option"
  writes :: "(nat \<times> 'i view) list"

text \<open>Modelled from the spec: the pipeline at page load (the pages' scripts are missing).\<close>

definition initial_pipeline :: "'i pipeline" where
  "initial_pipeline = \<lparr>cache = empty_cache, latest = 0, cycles = (\<lambda>t. None), writes = []\<rparr>"

text \<open>Modelled from the spec: the DOM shows the last write (the pages' scripts are missing).\<close>

definition dom :: "'i pipeline \<Rightarrow> 'i view" where
  "dom s = (case writes s of [] \<Rightarrow> Blank | w # ws \<Rightarrow> snd (last (w # ws)))"

text \<open>Modelled from the spec: all detail fetches of cycle \<open>t\<close> have settled (section 4.4,
  step 4; the Refresh Orchestrator's code is missing).\<close>

definition all_settled :: "nat \<Rightarrow> 'i summary list \<Rightarrow> ('i, nat, detail) detail_cache \<Rightarrow> bool" where
  "all_settled t recs k = list_all (\<lambda>(i, fields). result_for t i k \<noteq> None) recs"

text \<open>Modelled from the spec: step 6 of section 4.4 and the Renderer (their code is
  missing): every text field goes through the sanitizer, a parameter here; a record whose
  detail fetch failed gets the fallback row.\<close>

definition render :: "(string \<Rightarrow> string) \<Rightarrow> nat \<Rightarrow> 'i summary list \<Rightarrow> ('i, nat, detail) detail_cache \<Rightarrow> 'i row list" where
  "render sanitize t recs k =
     map (\<lambda>(i, fields).
            case result_for t i k of
              Some (Resolved d) \<Rightarrow> FullRow i (map sanitize fields) (map sanitize d)
            | _ \<Rightarrow> FallbackRow i (map sanitize fields))
         recs"

text \<open>Modelled from the spec: what happens between suspension points (section 5; the pages'
  scripts are missing): a refresh starts; the list query of cycle \<open>t\<close> completes, with an
  error or the summary records; a detail request completes; cycle \<open>t\<close>, all its detail
  fetches settled, reaches its commit step.\<close>

datatype 'i pipeline_event =
  Refresh
| ListDone nat "string + 'i summary list"
| DetailDone 'i "detail fetched"
| Commit nat

text \<open>Modelled from the spec: the six steps of section 4.4 (the Refresh Orchestrator's code
  is missing). A refresh allocates the next token. A failed list query ends the cycle and
  shows the error only if the token is still the latest. The summary records fan out to
  \<^verbatim>\<open>getDetail\<close>. At its commit step a cycle writes the rendered rows only if its token is
  still the latest, and ends either way. An event for a cycle that is not in that state
  does nothing.\<close>

fun pipeline_step :: "(string \<Rightarrow> string) \<Rightarrow> 'i pipeline_event \<Rightarrow> 'i pipeline \<Rightarrow> 'i pipeline" where
  "pipeline_step sanitize Refresh s =
     s\<lparr>latest := Suc (latest s), cycles := (cycles s)(Suc (latest s) \<mapsto> ListFetching)\<rparr>"
| "pipeline_step sanitize (ListDone t r) s =
     (case cycles s t of
        Some ListFetching \<Rightarrow>
          (case r of
             Inl err \<Rightarrow>
               if t = latest s
               then s\<lparr>cycles := (cycles s)(t := None), writes := writes s @ [(t, ErrorState err)]\<rparr>
               else s\<lparr>cycles := (cycles s)(t := None)\<rparr>
           | Inr recs \<Rightarrow>
               s\<lparr>cycles := (cycles s)(t \<mapsto> DetailFetching recs),
                 cache := fold (\<lambda>(i, fields). getDetail t i) recs (cache s)\<rparr>)
      | _ \<Rightarrow> s)"
| "pipeline_step sanitize (DetailDone i r) s = s\<lparr>cache := settle i r (cache s)\<rparr>"
| "pipeline_step sanitize (Commit t) s =
     (case cycles s t of
        Some (DetailFetching recs) \<Rightarrow>
          if all_settled t recs (cache s) then
            (if t = latest s
             then s\<lparr>cycles := (cycles s)(t := None),
                    writes := writes s @ [(t, Table (render sanitize t recs (cache s)))]\<rparr>
             else s\<lparr>cycles := (cycles s)(t := None)\<rparr>)
          else s
      | _ \<Rightarrow> s)"

text \<open>Modelled from the spec: a single logical thread runs the events one after the other
  (section 5; the pages' scripts are missing).\<close>

definition pipeline_run :: "(string \<Rightarrow> string) \<Rightarrow> 'i pipeline_event list \<Rightarrow> 'i pipeline \<Rightarrow> 'i pipeline" where
  "pipeline_run sanitize es s = fold (pipeline_step sanitize) es s"

text \<open>Modelled from the spec: the writes made by the cycle with token \<open>t\<close> (the pages' scripts
  are missing).\<close>

definition writes_of :: "nat \<Rightarrow> 'i pipeline \<Rightarrow> (nat \<times> 'i view) list" where
  "writes_of t s = filter (\<lambda>w. fst w = t) (writes s)"




section \<open>Concrete pages, browsers and requests\<close>

text \<open>
  A page with a loading indicator (element 0, id \<^verbatim>\<open>loading\<close>), a filter panel (element 1,
  class \<^verbatim>\<open>filters\<close>), a results info line (element 2, id \<^verbatim>\<open>resultsInfo\<close>) and a search box
  (element 3, id \<^verbatim>\<open>search\<close>); the selector \<^verbatim>\<open>[\<close> does not parse.
\<close>

definition example_document :: document where
  "example_document =
     \<lparr>getElementById = (\<lambda>i. if i = ''loading'' then Some 0
                            else if i = ''resultsInfo'' then Some 2
                            else if i = ''search'' then Some 3
                            else None),
      querySelectorAll = (\<lambda>sel. if sel = ''.filters'' then Some [1]
                                else if sel = ''#search'' then Some [3]
                                else if sel = ''['' then None
                                else Some [])\<rparr>"

text \<open>Handlers are named by strings here. One timer of another script is pending.\<close>

definition example_state :: "string state" where
  "example_state =
     \<lparr>elements = (\<lambda>e. \<lparr>display = [], innerHTML = ''Loading...'', listeners = []\<rparr>),
      console = [],
      cells = (\<lambda>c. None),
      next_cell = 0,
      now = 0,
      last_handle = 1,
      pending = [(1, 120, ''poll'')],
      calls = []\<rparr>"


definition default_load_options :: load_options where
  "default_load_options = \<lparr>dbPath = None, sqlJsVersion = None\<rparr>"

text \<open>A browser where sql.js is loaded and the database asset is served.\<close>

definition healthy_browser :: "bytes browser" where
  "healthy_browser =
     \<lparr>initSqlJs = Some (\<lambda>locate. Inr \<lparr>Database = (\<lambda>b. Inr b)\<rparr>),
      fetch = (\<lambda>path mode. Inr \<lparr>ok = True, arrayBuffer = Inr ''SQLite format 3''\<rparr>)\<rparr>"

text \<open>A browser where sql.js is loaded and the network is down: \<^verbatim>\<open>fetch\<close> rejects.\<close>

definition offline_browser :: "bytes browser" where
  "offline_browser =
     \<lparr>initSqlJs = Some (\<lambda>locate. Inr \<lparr>Database = (\<lambda>b. Inr b)\<rparr>),
      fetch = (\<lambda>path mode. Inl (JsError TypeError ''Failed to fetch''))\<rparr>"

text \<open>
  The server script in \<^verbatim>\<open>/srv/site/scripts\<close>, so that the root directory is \<^verbatim>\<open>/srv/site\<close>, and
  a file system with a page under the root and a file in the sibling directory
  \<^verbatim>\<open>/srv/site-private\<close>.
\<close>

definition example_process :: process where
  "example_process = \<lparr>cwd = ''/home/dev'', dirname = ''/srv/site/scripts''\<rparr>"

definition example_fs :: "string \<Rightarrow> fs_node option" where
  "example_fs p =
     (if p = ''/srv/site'' then Some Directory
      else if p = ''/srv/site/cards.html'' then Some (File ''<html></html>'')
      else if p = ''/srv/site-private'' then Some Directory
      else if p = ''/srv/site-private/key.txt'' then Some (File ''secret'')
      else None)"

section \<open>Properties of the shared module\<close>


subsection \<open>Missing targets\<close>


lemma add_each_Nil: "add_each [] ty l s = (s, None)"
  by simp










subsection \<open>Reporting an initialization error\<close>






subsection \<open>No sanitizer on the error path\<close>





subsection \<open>Debounced input\<close>

lemma after_handle_append: "after_handle L (xs @ ys) = after_handle L xs @ after_handle L ys"
  by (simp add: after_handle_def)

lemma after_handle_old:
  "\<forall>(i, due, cb) \<in> set xs. i \<le> L \<Longrightarrow> after_handle L xs = []"
  by (auto simp: after_handle_def filter_empty_conv)

lemma after_handle_calls_tick:
  "after_handle L (calls (tick t s)) =
     after_handle L (calls s) @
       sort_key (\<lambda>(i, due, cb). due) (filter (\<lambda>(i, due, cb). due \<le> t) (after_handle L (pending s)))"
  by (simp add: tick_def after_handle_def filter_sort conj_commute)

lemma after_handle_pending_tick:
  "after_handle L (pending (tick t s)) = filter (\<lambda>(i, due, cb). \<not> due \<le> t) (after_handle L (pending s))"
  by (simp add: tick_def after_handle_def conj_commute)

lemma tick_fields:
  "now (tick t s) = max (now s) t" "last_handle (tick t s) = last_handle s"
  "cells (tick t s) = cells s" "set (pending (tick t s)) \<subseteq> set (pending s)"
  by (auto simp: tick_def)

text \<open>The state after an input event, in terms of the state before the listener ran.\<close>

lemma input_listener_fields:
  "last_handle (input_listener c h d s) = Suc (last_handle s)"
  "cells (input_listener c h d s) c = Some (Suc (last_handle s))"
  "now (input_listener c h d s) = now s"
  "calls (input_listener c h d s) = calls s"
  "pending (input_listener c h d s) =
     (if armed (cells s c) then filter (\<lambda>(i, due, cb). i \<noteq> the (cells s c)) (pending s) else pending s)
       @ [(Suc (last_handle s), now s + d, h)]"
  by (auto simp: input_listener_def setTimeout_def clearTimeout_def Let_def)

lemma first_event:
  assumes "after_handle L (pending s) = []" "cells s c = None" "last_handle s = L" "now s \<le> t"
  shows "own_timer L c h d 1 t (event_at (DebouncedInput c h d) t s)
       \<and> after_handle L (calls (event_at (DebouncedInput c h d) t s)) = after_handle L (calls s)"
  using assms
  by (simp add: own_timer_def event_at_def input_listener_fields tick_fields
      after_handle_append after_handle_calls_tick after_handle_pending_tick max_def)
     (simp add: after_handle_def)

lemma next_event:
  assumes "own_timer L c h d k t s" "t \<le> t'" "t' < t + d"
  shows "own_timer L c h d (Suc k) t' (event_at (DebouncedInput c h d) t' s)
       \<and> after_handle L (calls (event_at (DebouncedInput c h d) t' s)) = after_handle L (calls s)"
proof -
  let ?s = "tick t' s"
  have own: "after_handle L (pending ?s) = [(L + k, t + d, h)]"
    using assms by (simp add: own_timer_def after_handle_pending_tick)
  have cleared: "after_handle L (filter (\<lambda>(i, due, cb). i \<noteq> L + k) (pending ?s)) = []"
  proof -
    have "after_handle L (filter (\<lambda>(i, due, cb). i \<noteq> L + k) (pending ?s))
        = filter (\<lambda>(i, due, cb). i \<noteq> L + k) (after_handle L (pending ?s))"
      by (simp add: after_handle_def conj_commute)
    then show ?thesis by (simp add: own)
  qed
  have quiet: "after_handle L (calls ?s) = after_handle L (calls s)"
    using assms by (simp add: own_timer_def after_handle_calls_tick)
  show ?thesis
    using assms cleared quiet
    by (simp add: own_timer_def event_at_def input_listener_fields tick_fields
        after_handle_append max_def)
       (simp add: after_handle_def)
qed

lemma later_events:
  "own_timer L c h d k t s \<Longrightarrow> spaced d (t # ts) \<Longrightarrow>
     own_timer L c h d (k + length ts) (last (t # ts)) (events_at (DebouncedInput c h d) ts s)
   \<and> after_handle L (calls (events_at (DebouncedInput c h d) ts s)) = after_handle L (calls s)"
proof (induction ts arbitrary: s k t)
  case Nil
  then show ?case by (simp add: events_at_def)
next
  case (Cons t' ts)
  from Cons.prems have sp: "t \<le> t'" "t' < t + d" "spaced d (t' # ts)" by simp_all
  from next_event [OF Cons.prems(1) sp(1,2)]
  have st: "own_timer L c h d (Suc k) t' (event_at (DebouncedInput c h d) t' s)"
    and cl: "after_handle L (calls (event_at (DebouncedInput c h d) t' s)) = after_handle L (calls s)"
    by simp_all
  from Cons.IH [OF st sp(3)] cl show ?case
    by (simp add: events_at_def)
qed

lemma all_events:
  assumes "after_handle L (pending s) = []" "cells s c = None" "last_handle s = L"
    and "ts \<noteq> []" "now s \<le> hd ts" "spaced d ts"
  shows "own_timer L c h d (length ts) (last ts) (events_at (DebouncedInput c h d) ts s)
       \<and> after_handle L (calls (events_at (DebouncedInput c h d) ts s)) = after_handle L (calls s)"
proof -
  from assms(4) obtain t ts' where ts: "ts = t # ts'" by (cases ts) auto
  from first_event [OF assms(1,2,3), of t h d] assms(5) ts
  have st: "own_timer L c h d 1 t (event_at (DebouncedInput c h d) t s)"
    and cl: "after_handle L (calls (event_at (DebouncedInput c h d) t s)) = after_handle L (calls s)"
    by simp_all
  from later_events [OF st] assms(6) ts cl show ?thesis
    by (simp add: events_at_def)
qed

lemma own_timer_fires:
  assumes "own_timer L c h d k t s"
  shows "t + d \<le> T \<Longrightarrow> after_handle L (calls (tick T s)) = after_handle L (calls s) @ [(L + k, t + d, h)]"
    and "T < t + d \<Longrightarrow> after_handle L (calls (tick T s)) = after_handle L (calls s)"
  using assms by (simp_all add: own_timer_def after_handle_calls_tick)

lemma addEventListener_fields:
  "cells (addEventListener e ty l s) = cells s" "last_handle (addEventListener e ty l s) = last_handle s"
  "pending (addEventListener e ty l s) = pending s" "now (addEventListener e ty l s) = now s"
  "calls (addEventListener e ty l s) = calls s"
  "(ty, l) \<in> set (listeners (elements (addEventListener e ty l s) e))"
  by (simp_all add: addEventListener_def)

lemma setupDebouncedInput_registered:
  assumes "setupDebouncedInput doc x handler delay s = (s', Inr (ClearPending c))"
  shows "\<exists>e. resolveElement doc x = Inr (Some e) \<and>
           (''input'', DebouncedInput c handler (case delay of None \<Rightarrow> 300 | Some n \<Rightarrow> n))
             \<in> set (listeners (elements s' e))"
    and "cells s' c = None" and "last_handle s' = last_handle s" and "pending s' = pending s"
    and "now s' = now s" and "calls s' = calls s"
  using assms
  by (auto simp: setupDebouncedInput_def Let_def addEventListener_fields
      split: sum.splits option.splits)

lemma at_most_one_step:
  assumes "L \<le> last_handle s"
      and "after_handle L (pending s) = [] \<or>
           (\<exists>t. after_handle L (pending s) = [(last_handle s, t, h)] \<and> cells s c = Some (last_handle s))"
  shows "L \<le> last_handle (event_at (DebouncedInput c h d) t s)
       \<and> (\<exists>t'. after_handle L (pending (event_at (DebouncedInput c h d) t s))
               = [(last_handle (event_at (DebouncedInput c h d) t s), t', h)]
             \<and> cells (event_at (DebouncedInput c h d) t s) c
               = Some (last_handle (event_at (DebouncedInput c h d) t s)))"
proof -
  let ?s = "tick t s"
  have cl: "armed (cells ?s c) \<Longrightarrow>
      after_handle L (filter (\<lambda>(i, due, cb). i \<noteq> the (cells ?s c)) (pending ?s)) = []"
  proof -
    have *: "after_handle L (filter (\<lambda>(i, due, cb). i \<noteq> the (cells ?s c)) (pending ?s))
        = filter (\<lambda>(i, due, cb). i \<noteq> the (cells ?s c)) (after_handle L (pending ?s))"
      by (simp add: after_handle_def conj_commute)
    from assms(2) show ?thesis
      unfolding * by (auto simp: after_handle_pending_tick tick_fields)
  qed
  have nc: "\<not> armed (cells ?s c) \<Longrightarrow> after_handle L (pending ?s) = []"
  proof -
    assume n: "\<not> armed (cells ?s c)"
    from assms(2) show ?thesis
    proof
      assume "after_handle L (pending s) = []"
      then show ?thesis by (simp add: after_handle_pending_tick)
    next
      assume "\<exists>t. after_handle L (pending s) = [(last_handle s, t, h)] \<and> cells s c = Some (last_handle s)"
      then obtain t0 where o: "after_handle L (pending s) = [(last_handle s, t0, h)]"
        and c: "cells s c = Some (last_handle s)" by blast
      from o have "(last_handle s, t0, h) \<in> set (after_handle L (pending s))" by simp
      then have "L < last_handle s" by (simp add: after_handle_def)
      with c n show ?thesis by (simp add: tick_fields)
    qed
  qed
  show ?thesis
    using cl nc assms(1)
    by (cases "armed (cells ?s c)")
       (simp_all add: event_at_def input_listener_fields after_handle_append tick_fields,
        simp_all add: after_handle_def)
qed

lemma at_most_one_pending:
  assumes "L \<le> last_handle s"
      and "after_handle L (pending s) = [] \<or>
           (\<exists>t. after_handle L (pending s) = [(last_handle s, t, h)] \<and> cells s c = Some (last_handle s))"
  shows "length (after_handle L (pending (events_at (DebouncedInput c h d) us s))) \<le> 1"
  using assms
proof (induction us arbitrary: s)
  case Nil
  then show ?case by (auto simp: events_at_def)
next
  case (Cons u us)
  from at_most_one_step [OF Cons.prems, of d u]
  have l: "L \<le> last_handle (event_at (DebouncedInput c h d) u s)"
    and "after_handle L (pending (event_at (DebouncedInput c h d) u s)) = [] \<or>
        (\<exists>t. after_handle L (pending (event_at (DebouncedInput c h d) u s))
              = [(last_handle (event_at (DebouncedInput c h d) u s), t, h)]
            \<and> cells (event_at (DebouncedInput c h d) u s) c
              = Some (last_handle (event_at (DebouncedInput c h d) u s)))"
    by blast+
  from Cons.IH [OF this] show ?case by (simp add: events_at_def)
qed

lemma setup_registers_when_resolved:
  assumes "resolveElement doc x = Inr (Some e)"
  shows "snd (setupDebouncedInput doc x handler delay s) = Inr (ClearPending (next_cell s))"
    and "(''input'', DebouncedInput (next_cell s) handler (case delay of None \<Rightarrow> 300 | Some n \<Rightarrow> n))
           \<in> set (listeners (elements (fst (setupDebouncedInput doc x handler delay s)) e))"
  using assms
  by (simp_all add: setupDebouncedInput_def Let_def addEventListener_fields)

text \<open>
  Claim C3. The element resolves, so \<^verbatim>\<open>setupDebouncedInput\<close> returns the function that
  clears the timer and leaves its listener registered for \<^verbatim>\<open>input\<close> on that element, with
  the delay \<open>d\<close> (300 by default). The timers other scripts left pending have handles up to
  the last one given out. For input events at the times \<open>ts\<close>, each less than \<open>d\<close>
  milliseconds after the one before, delivered to that listener: after the last event
  exactly one timer of the debouncer is pending, due \<open>d\<close> after that event (every event
  cancelled the timer before it and armed a fresh one); whatever the times of the events,
  never more than one is pending; the handler has not run before the quiet period is
  over, and has run exactly once, at that time, after it.
\<close>

theorem debounced_handler_fires_once:
  assumes res: "resolveElement doc x = Inr (Some e)"
      and d: "d = (case delay of None \<Rightarrow> 300 | Some n \<Rightarrow> n)"
      and others: "\<forall>(i, due, cb) \<in> set (pending s). i \<le> last_handle s"
      and ts: "ts \<noteq> []" "now s \<le> hd ts" "spaced d ts"
      and installed: "s' = fst (setupDebouncedInput doc x handler delay s)"
      and closure: "l = DebouncedInput (next_cell s) handler d"
      and final: "s'' = events_at l ts s'"
  shows "setupDebouncedInput doc x handler delay s = (s', Inr (ClearPending (next_cell s)))
       \<and> (''input'', l) \<in> set (listeners (elements s' e))
       \<and> after_handle (last_handle s) (pending s'')
             = [(last_handle s + length ts, last ts + d, handler)]
       \<and> (\<forall>us. length (after_handle (last_handle s) (pending (events_at l us s'))) \<le> 1)
       \<and> (\<forall>T. T < last ts + d \<longrightarrow>
             after_handle (last_handle s) (calls (tick T s'')) = after_handle (last_handle s) (calls s))
       \<and> (\<forall>T. last ts + d \<le> T \<longrightarrow>
             after_handle (last_handle s) (calls (tick T s''))
               = after_handle (last_handle s) (calls s) @ [(last_handle s + length ts, last ts + d, handler)])"
proof -
  let ?c = "next_cell s"
  from setup_registers_when_resolved [OF res, where handler = handler and delay = delay and s = s]
  have ret: "snd (setupDebouncedInput doc x handler delay s) = Inr (ClearPending ?c)"
    and listed: "(''input'', l) \<in> set (listeners (elements s' e))"
    by (simp_all add: installed closure d)
  from ret have inst: "setupDebouncedInput doc x handler delay s = (s', Inr (ClearPending ?c))"
    by (simp add: installed prod_eq_iff)
  note reg = setupDebouncedInput_registered [OF inst]
  have none: "after_handle (last_handle s') (pending s') = []"
    using others reg(3,4) by (simp add: after_handle_old)
  from all_events [OF none reg(2) refl ts(1) _ ts(3), of handler] ts(2) reg(5)
  have own: "own_timer (last_handle s') ?c handler d (length ts) (last ts) s''"
    and quiet: "after_handle (last_handle s') (calls s'') = after_handle (last_handle s') (calls s')"
    by (simp_all add: final closure)
  from own have p: "after_handle (last_handle s') (pending s'')
      = [(last_handle s' + length ts, last ts + d, handler)]"
    by (simp add: own_timer_def)
  have one: "length (after_handle (last_handle s') (pending (events_at l us s'))) \<le> 1" for us
    unfolding closure by (rule at_most_one_pending) (simp_all add: none)
  show ?thesis
    using inst listed p own_timer_fires [OF own] quiet one
    by (simp add: reg(3) reg(6))
qed

theorem debounced_handler_fires_once_witness:
  "resolveElement example_document (Str ''#search'') = Inr (Some 3)
   \<and> spaced 300 [10, 200, 450]
   \<and> snd (setupDebouncedInput example_document (Str ''#search'') ''refresh'' None example_state)
       = Inr (ClearPending 0)
   \<and> (''input'', DebouncedInput 0 ''refresh'' 300)
       \<in> set (listeners (elements
            (fst (setupDebouncedInput example_document (Str ''#search'') ''refresh'' None example_state)) 3))
   \<and> after_handle 1 (pending (events_at (DebouncedInput 0 ''refresh'' 300) [10, 200, 450]
        (fst (setupDebouncedInput example_document (Str ''#search'') ''refresh'' None example_state))))
       = [(4, 750, ''refresh'')]
   \<and> after_handle 1 (calls (tick 749 (events_at (DebouncedInput 0 ''refresh'' 300) [10, 200, 450]
        (fst (setupDebouncedInput example_document (Str ''#search'') ''refresh'' None example_state)))))
       = []
   \<and> after_handle 1 (calls (tick 750 (events_at (DebouncedInput 0 ''refresh'' 300) [10, 200, 450]
        (fst (setupDebouncedInput example_document (Str ''#search'') ''refresh'' None example_state)))))
       = [(4, 750, ''refresh'')]"
proof -
  let ?s' = "fst (setupDebouncedInput example_document (Str ''#search'') ''refresh'' None example_state)"
  have res: "resolveElement example_document (Str ''#search'') = Inr (Some 3)"
    by (simp add: resolveElement_def querySelector_def example_document_def)
  have d: "(300::nat) = (case None of None \<Rightarrow> 300 | Some n \<Rightarrow> n)" by simp
  have others: "\<forall>(i, due, cb) \<in> set (pending example_state). i \<le> last_handle example_state"
    by (simp add: example_state_def)
  have ts: "[10, 200, 450] \<noteq> ([]::nat list)" "now example_state \<le> hd [10, 200, 450]"
    "spaced 300 [10, 200, 450]"
    by (simp_all add: example_state_def)
  have l: "last_handle example_state = 1" "calls example_state = []" "next_cell example_state = 0"
    by (simp_all add: example_state_def)
  from debounced_handler_fires_once [OF res d others ts refl refl refl, where handler = "''refresh''"] ts(3) res
  show ?thesis
    by (simp add: l after_handle_def prod_eq_iff)
qed

subsection \<open>Loading the database\<close>

text \<open>
  Claim C9, as amended. \<^verbatim>\<open>loadSqlDatabase\<close> returns a database exactly when every step
  succeeds: \<^verbatim>\<open>initSqlJs\<close> is a function and resolves, the fetch resolves with a success
  response, its body can be read and the \<^verbatim>\<open>Database\<close> constructor accepts the bytes; the
  database is the one constructed from the fetched bytes. It throws its own error
  \<^verbatim>\<open>sql.js library not loaded\<close> when \<^verbatim>\<open>initSqlJs\<close> is not a function and
  \<^verbatim>\<open>Failed to load database file\<close> for a response that is not a success, and it passes on
  the error of \<^verbatim>\<open>initSqlJs\<close>, of \<^verbatim>\<open>fetch\<close>, of \<^verbatim>\<open>arrayBuffer\<close> or of the constructor. Every
  request it makes is for the database path with the cache mode \<^verbatim>\<open>no-store\<close>: none before
  sql.js is initialised, one after.
\<close>

theorem loadSqlDatabase_outcomes:
  assumes "path = (case dbPath opts of None \<Rightarrow> ''dawncaster-cards.db'' | Some p \<Rightarrow> p)"
      and "version = (case sqlJsVersion opts of None \<Rightarrow> ''1.8.0'' | Some v \<Rightarrow> v)"
  shows "(\<forall>db. fst (loadSqlDatabase env opts) = Inr db \<longleftrightarrow>
            (\<exists>init SQL response buffer.
               initSqlJs env = Some init \<and> init (locateFile version) = Inr SQL \<and>
               fetch env path ''no-store'' = Inr response \<and> ok response \<and>
               arrayBuffer response = Inr buffer \<and> Database SQL buffer = Inr db))
       \<and> (initSqlJs env = None \<longrightarrow>
            loadSqlDatabase env opts = (Inl (JsError Error ''sql.js library not loaded''), []))
       \<and> (\<forall>init e. initSqlJs env = Some init \<and> init (locateFile version) = Inl e \<longrightarrow>
            loadSqlDatabase env opts = (Inl e, []))
       \<and> (\<forall>init SQL. initSqlJs env = Some init \<and> init (locateFile version) = Inr SQL \<longrightarrow>
            snd (loadSqlDatabase env opts) = [(path, ''no-store'')]
            \<and> (\<forall>e. fetch env path ''no-store'' = Inl e \<longrightarrow> fst (loadSqlDatabase env opts) = Inl e)
            \<and> (\<forall>response. fetch env path ''no-store'' = Inr response \<longrightarrow>
                  (\<not> ok response \<longrightarrow>
                     fst (loadSqlDatabase env opts) = Inl (JsError Error ''Failed to load database file''))
                  \<and> (\<forall>e. ok response \<and> arrayBuffer response = Inl e \<longrightarrow>
                        fst (loadSqlDatabase env opts) = Inl e)
                  \<and> (\<forall>buffer. ok response \<and> arrayBuffer response = Inr buffer \<longrightarrow>
                        fst (loadSqlDatabase env opts) = Database SQL buffer)))
       \<and> (\<forall>request \<in> set (snd (loadSqlDatabase env opts)). request = (path, ''no-store''))"
  using assms
  by (auto simp: loadSqlDatabase_def DEFAULT_DB_PATH_def SQL_JS_VERSION_def Let_def
      split: option.splits sum.splits)

theorem loadSqlDatabase_outcomes_witness:
  "loadSqlDatabase healthy_browser default_load_options
     = (Inr ''SQLite format 3'', [(''dawncaster-cards.db'', ''no-store'')])
   \<and> loadSqlDatabase \<lparr>initSqlJs = None, fetch = fetch healthy_browser\<rparr> default_load_options
     = (Inl (JsError Error ''sql.js library not loaded''), [])
   \<and> loadSqlDatabase
        (healthy_browser\<lparr>fetch := (\<lambda>path mode. Inr \<lparr>ok = False, arrayBuffer = Inr []\<rparr>)\<rparr>)
        default_load_options
     = (Inl (JsError Error ''Failed to load database file''), [(''dawncaster-cards.db'', ''no-store'')])"
proof -
  have p: "''dawncaster-cards.db'' = (case dbPath default_load_options of None \<Rightarrow> ''dawncaster-cards.db'' | Some p \<Rightarrow> p)"
    and v: "''1.8.0'' = (case sqlJsVersion default_load_options of None \<Rightarrow> ''1.8.0'' | Some v \<Rightarrow> v)"
    by (simp_all add: default_load_options_def)
  note a = loadSqlDatabase_outcomes [OF p v, of healthy_browser]
  note b = loadSqlDatabase_outcomes [OF p v, of "\<lparr>initSqlJs = None, fetch = fetch healthy_browser\<rparr>"]
  note c = loadSqlDatabase_outcomes [OF p v,
      of "healthy_browser\<lparr>fetch := (\<lambda>path mode. Inr \<lparr>ok = False, arrayBuffer = Inr []\<rparr>)\<rparr>"]
  have 1: "loadSqlDatabase healthy_browser default_load_options
     = (Inr ''SQLite format 3'', [(''dawncaster-cards.db'', ''no-store'')])"
    using a by (simp add: healthy_browser_def prod_eq_iff)
  have 2: "loadSqlDatabase \<lparr>initSqlJs = None, fetch = fetch healthy_browser\<rparr> default_load_options
     = (Inl (JsError Error ''sql.js library not loaded''), [])"
    using b by auto
  have 3: "loadSqlDatabase
        (healthy_browser\<lparr>fetch := (\<lambda>path mode. Inr \<lparr>ok = False, arrayBuffer = Inr []\<rparr>)\<rparr>)
        default_load_options
     = (Inl (JsError Error ''Failed to load database file''), [(''dawncaster-cards.db'', ''no-store'')])"
    using c by (simp add: healthy_browser_def prod_eq_iff)
  from 1 2 3 show ?thesis by (intro conjI)
qed

text \<open>
  Claim C9 as stated fails when the network is down: sql.js is loaded and \<^verbatim>\<open>fetch\<close> returns
  no response at all, it rejects, and \<^verbatim>\<open>loadSqlDatabase\<close> throws that error.
\<close>

theorem loadSqlDatabase_throws_when_fetch_rejects:
  "initSqlJs offline_browser \<noteq> None
   \<and> fetch offline_browser ''dawncaster-cards.db'' ''no-store'' = Inl (JsError TypeError ''Failed to fetch'')
   \<and> fst (loadSqlDatabase offline_browser default_load_options) = Inl (JsError TypeError ''Failed to fetch'')"
  by (simp add: loadSqlDatabase_def offline_browser_def default_load_options_def
      DEFAULT_DB_PATH_def)

section \<open>Properties of the static file server\<close>

lemma resolvePath_starts_with_root:
  "resolvePath pr u = Inr (Some p) \<Longrightarrow> prefix (rootDir pr) p"
  by (auto simp: resolvePath_def Let_def split: option.splits if_splits)

lemma resolvePath_throws_iff:
  "(\<exists>e. resolvePath pr u = Inl e) \<longleftrightarrow> decodeURIComponent (before_query u) = None"
  by (auto simp: resolvePath_def Let_def split: option.splits if_splits)

lemma null_path_forbidden:
  "resolvePath pr u = Inr None \<Longrightarrow> u \<noteq> [] \<Longrightarrow>
     handle_request pr fs (Some u) = (Responded (plain_response 403 ''Forbidden''), [])"
  by (simp add: handle_request_def)

lemma directory_forbidden:
  "resolvePath pr u = Inr (Some p) \<Longrightarrow> fs p = Some Directory \<Longrightarrow> u \<noteq> [] \<Longrightarrow>
     handle_request pr fs (Some u) = (Responded (plain_response 403 ''Forbidden''), [])"
  by (simp add: handle_request_def)

lemma files_read_start_with_root:
  "f \<in> set (snd (handle_request pr fs url)) \<Longrightarrow> prefix (rootDir pr) f"
  by (auto simp: handle_request_def Let_def resolvePath_starts_with_root
      split: option.splits sum.splits fs_node.splits if_splits)

text \<open>
  Claim C8 at its failing input. The root directory is \<^verbatim>\<open>/srv/site\<close>. The request for
  \<^verbatim>\<open>/../site-private/key.txt\<close> resolves to a path in the sibling directory
  \<^verbatim>\<open>/srv/site-private\<close>, whose name starts with the root's, so the check with
  \<^verbatim>\<open>startsWith\<close> lets it through and the file is read and served with status 200. For the
  request \<^verbatim>\<open>/%\<close>, \<^verbatim>\<open>resolvePath\<close> returns neither a path nor \<^verbatim>\<open>null\<close>: it throws, and no
  response is sent.
\<close>

theorem sibling_directory_file_served:
  "rootDir example_process = ''/srv/site''
   \<and> resolvePath example_process ''/../site-private/key.txt'' = Inr (Some ''/srv/site-private/key.txt'')
   \<and> handle_request example_process example_fs (Some ''/../site-private/key.txt'')
       = (Responded \<lparr>statusCode = 200,
                      headers = [(''Content-Type'', HText ''text/plain; charset=utf-8''),
                                 (''Content-Length'', HNumber 6)],
                      body = ''secret''\<rparr>,
          [''/srv/site-private/key.txt''])
   \<and> resolvePath example_process ''/%'' = Inl (JsError URIError ''URI malformed'')
   \<and> handle_request example_process example_fs (Some ''/%'')
       = (Rejected (JsError URIError ''URI malformed''), [])"
  by code_simp

section \<open>Properties of the fetch-cache-render pipeline\<close>

subsection \<open>Detail Cache: one request per identifier\<close>


lemma cache_run_Cons: "cache_run (e # es) k = cache_run es (cache_step e k)"
  by (simp add: cache_run_def)

lemma cache_run_Nil: "cache_run [] k = k"
  by (simp add: cache_run_def)


text \<open>A call with no entry, or with a recorded failure, issues one.\<close>

lemma getDetail_request:
  "entries k i = None \<or> entries k i = Some FetchError \<Longrightarrow>
     requests (getDetail c i k) = requests k @ [i] \<and>
     entries (getDetail c i k) = (entries k)(i \<mapsto> InFlight) \<and>
     waiters (getDetail c i k) = waiters k @ [(c, i)] \<and>
     settled (getDetail c i k) = settled k"
  by (auto simp: getDetail_def)








subsection \<open>Detail Cache: a failure is not cached\<close>

lemma failure_stays_recorded:
  assumes "entries k i = Some FetchError" "\<forall>e \<in> set es. \<not> (is_call e \<and> event_id e = i)"
  shows "entries (cache_run es k) i = Some FetchError"
  using assms
proof (induction es arbitrary: k)
  case Nil
  then show ?case by (simp add: cache_run_Nil)
next
  case (Cons e es)
  have "entries (cache_step e k) i = Some FetchError"
  proof (cases e)
    case (Get c j)
    with Cons.prems have "j \<noteq> i" by auto
    with Cons.prems(1) Get show ?thesis
      by (auto simp: getDetail_def split: option.splits cache_entry.splits)
  next
    case (Settle j r)
    with Cons.prems(1) show ?thesis
      by (auto simp: settle_def split: option.splits cache_entry.splits)
  qed
  from Cons.IH [OF this] Cons.prems(2) show ?case by (simp add: cache_run_Cons)
qed

lemma call_then_failure:
  assumes "entries k i = None \<or> entries k i = Some FetchError"
  shows "requests (settle i Failed (getDetail c i k)) = requests k @ [i]"
    and "entries (settle i Failed (getDetail c i k)) i = Some FetchError"
  using assms by (auto simp: getDetail_def settle_def)

lemma retry_rounds:
  assumes "entries k i = None \<or> entries k i = Some FetchError"
  shows "requests (cache_run (concat (map (\<lambda>c. [Get c i, Settle i Failed]) cs)) k)
           = requests k @ replicate (length cs) i"
  using assms
proof (induction cs arbitrary: k)
  case Nil
  then show ?case by (simp add: cache_run_Nil)
next
  case (Cons c cs)
  from call_then_failure [OF Cons.prems, of c]
  have r: "requests (settle i Failed (getDetail c i k)) = requests k @ [i]"
    and e: "entries (settle i Failed (getDetail c i k)) i = None
          \<or> entries (settle i Failed (getDetail c i k)) i = Some FetchError"
    by simp_all
  from Cons.IH [OF e] r show ?case
    by (simp add: cache_run_Cons replicate_app_Cons_same)
qed

text \<open>
  Claim C5. When the pending request for \<open>i\<close> fails, the entry records the failure, not a
  result. It stays so whatever happens to other identifiers, and the next call for \<open>i\<close>
  issues a fresh request, is stored as pending and gets nothing from the recorded failure.
  No call is ever answered from the cache with anything but a resolved record. Calls made
  one after the other, each after the failure before it has settled, issue a request each.
\<close>

theorem failed_fetch_is_retried:
  "(entries k i = Some InFlight \<longrightarrow> entries (settle i Failed k) i = Some FetchError)
   \<and> (entries k i = Some FetchError \<and> (\<forall>e \<in> set es. \<not> (is_call e \<and> event_id e = i)) \<longrightarrow>
        entries (cache_run es k) i = Some FetchError
        \<and> requests (getDetail c i (cache_run es k)) = requests (cache_run es k) @ [i]
        \<and> entries (getDetail c i (cache_run es k)) i = Some InFlight
        \<and> settled (getDetail c i (cache_run es k)) = settled (cache_run es k))
   \<and> (settled (getDetail c i k) = settled k
        \<or> (\<exists>d. entries k i = Some (Stored d) \<and> settled (getDetail c i k) = settled k @ [(c, i, Resolved d)]))
   \<and> (entries k i = None \<or> entries k i = Some FetchError \<longrightarrow>
        requests (cache_run (concat (map (\<lambda>c. [Get c i, Settle i Failed]) cs)) k)
          = requests k @ replicate (length cs) i)"
proof -
  have a: "entries k i = Some InFlight \<Longrightarrow> entries (settle i Failed k) i = Some FetchError"
    by (simp add: settle_def)
  have b: "entries (cache_run es k) i = Some FetchError
        \<and> requests (getDetail c i (cache_run es k)) = requests (cache_run es k) @ [i]
        \<and> entries (getDetail c i (cache_run es k)) i = Some InFlight
        \<and> settled (getDetail c i (cache_run es k)) = settled (cache_run es k)"
    if "entries k i = Some FetchError" "\<forall>e \<in> set es. \<not> (is_call e \<and> event_id e = i)"
  proof -
    from failure_stays_recorded [OF that] have f: "entries (cache_run es k) i = Some FetchError" .
    with getDetail_request [of "cache_run es k" i c] show ?thesis by simp
  qed
  have c: "settled (getDetail c i k) = settled k
        \<or> (\<exists>d. entries k i = Some (Stored d) \<and> settled (getDetail c i k) = settled k @ [(c, i, Resolved d)])"
    by (auto simp: getDetail_def split: option.splits cache_entry.splits)
  from a b c retry_rounds [of k i cs] show ?thesis by blast
qed

theorem failed_fetch_is_retried_witness:
  "requests (cache_run [Get (1::nat) ''ember'', Settle ''ember'' Failed, Get 2 ''frost'', Get 3 ''ember'']
      (empty_cache :: (string, nat, string list) detail_cache)) = [''ember'', ''frost'', ''ember'']
   \<and> settled (cache_run [Get (1::nat) ''ember'', Settle ''ember'' Failed, Get 2 ''frost'', Get 3 ''ember'']
      (empty_cache :: (string, nat, string list) detail_cache)) = [(1, ''ember'', Failed)]
   \<and> requests (cache_run (concat (map (\<lambda>c. [Get c ''ember'', Settle ''ember'' Failed]) [1, 2, 3 :: nat]))
      (empty_cache :: (string, nat, string list) detail_cache)) = [''ember'', ''ember'', ''ember'']"
proof -
  let ?k = "cache_run [Get (1::nat) ''ember''] (empty_cache :: (string, nat, string list) detail_cache)"
  let ?k1 = "settle ''ember'' Failed ?k"
  let ?es = "[Get 2 ''frost''] :: (string, nat, string list) cache_event list"
  have inflight: "entries ?k ''ember'' = Some InFlight"
    by (simp add: cache_run_def getDetail_def empty_cache_def)
  note first = failed_fetch_is_retried [of ?k "''ember''" "[]" 0 "[]"]
  from first inflight have failed: "entries ?k1 ''ember'' = Some FetchError" by blast
  have others: "\<forall>e \<in> set ?es. \<not> (is_call e \<and> event_id e = ''ember'')" by simp
  note second = failed_fetch_is_retried [of ?k1 "''ember''" ?es 3 "[]"]
  from second failed others
  have r: "requests (getDetail 3 ''ember'' (cache_run ?es ?k1)) = requests (cache_run ?es ?k1) @ [''ember'']"
    and s: "settled (getDetail 3 ''ember'' (cache_run ?es ?k1)) = settled (cache_run ?es ?k1)"
    by blast+
  have unfold: "cache_run [Get (1::nat) ''ember'', Settle ''ember'' Failed, Get 2 ''frost'', Get 3 ''ember'']
      (empty_cache :: (string, nat, string list) detail_cache) = getDetail 3 ''ember'' (cache_run ?es ?k1)"
    by (simp add: cache_run_def)
  have base_r: "requests (cache_run ?es ?k1) = [''ember'', ''frost'']"
    and base_s: "settled (cache_run ?es ?k1) = [(1, ''ember'', Failed)]"
    by (simp_all add: cache_run_def getDetail_def settle_def empty_cache_def)
  note third = failed_fetch_is_retried [of "empty_cache :: (string, nat, string list) detail_cache"
      "''ember''" "[]" 0 "[1, 2, 3]"]
  have "entries (empty_cache :: (string, nat, string list) detail_cache) ''ember'' = None"
    by (simp add: empty_cache_def)
  with third have "requests (cache_run (concat (map (\<lambda>c. [Get c ''ember'', Settle ''ember'' Failed]) [1, 2, 3 :: nat]))
      (empty_cache :: (string, nat, string list) detail_cache))
      = requests (empty_cache :: (string, nat, string list) detail_cache) @ replicate (length [1, 2, 3 :: nat]) ''ember''"
    by blast
  then have t: "requests (cache_run (concat (map (\<lambda>c. [Get c ''ember'', Settle ''ember'' Failed]) [1, 2, 3 :: nat]))
      (empty_cache :: (string, nat, string list) detail_cache)) = [''ember'', ''ember'', ''ember'']"
    by (simp add: empty_cache_def numeral_3_eq_3)
  from r s base_r base_s t show ?thesis
    unfolding unfold by simp
qed

subsection \<open>Refresh Orchestrator: a superseded cycle never writes\<close>

lemma pipeline_step_latest: "latest s \<le> latest (pipeline_step sanitize e s)"
  by (cases e) (auto split: option.splits phase.splits sum.splits)

lemma pipeline_run_latest: "latest s \<le> latest (pipeline_run sanitize es s)"
proof (induction es arbitrary: s)
  case Nil
  then show ?case by (simp add: pipeline_run_def)
next
  case (Cons e es)
  have "latest s \<le> latest (pipeline_step sanitize e s)"
    by (rule pipeline_step_latest)
  also have "\<dots> \<le> latest (pipeline_run sanitize es (pipeline_step sanitize e s))"
    by (rule Cons.IH)
  finally show ?case by (simp add: pipeline_run_def)
qed

lemma pipeline_step_writes:
  "writes (pipeline_step sanitize e s) = writes s
   \<or> (\<exists>v. writes (pipeline_step sanitize e s) = writes s @ [(latest s, v)])"
  by (cases e) (auto split: option.splits phase.splits sum.splits)

lemma superseded_step:
  "a < latest s \<Longrightarrow> writes_of a (pipeline_step sanitize e s) = writes_of a s"
  using pipeline_step_writes [of sanitize e s] by (auto simp: writes_of_def)

lemma superseded_run:
  "a < latest s \<Longrightarrow> writes_of a (pipeline_run sanitize es s) = writes_of a s"
proof (induction es arbitrary: s)
  case Nil
  then show ?case by (simp add: pipeline_run_def)
next
  case (Cons e es)
  from Cons.prems pipeline_step_latest [of s sanitize e]
  have "a < latest (pipeline_step sanitize e s)" by simp
  from Cons.IH [OF this] superseded_step [OF Cons.prems, of sanitize e]
  show ?case by (simp add: pipeline_run_def)
qed


text \<open>
  Claim C1. Cycle A holds token \<open>a\<close>, allocated during the events \<open>before\<close>; then cycle B
  starts. Whatever happens later, in whatever order the fetches of A and B complete, A
  writes nothing to the DOM after B has started: its writes are those it had made before.
  Every write of any step is made by the cycle that holds the latest token.
\<close>

theorem superseded_cycle_never_writes:
  assumes "a \<le> latest (pipeline_run sanitize before s)"
  shows "writes_of a (pipeline_run sanitize (before @ Refresh # later) s)
           = writes_of a (pipeline_run sanitize before s)
       \<and> (writes (pipeline_step sanitize e s') = writes s'
          \<or> (\<exists>v. writes (pipeline_step sanitize e s') = writes s' @ [(latest s', v)]))"
proof -
  let ?s = "pipeline_run sanitize before s"
  have "a < latest (pipeline_step sanitize Refresh ?s)"
    using assms by simp
  from superseded_run [OF this, of sanitize later]
  have "writes_of a (pipeline_run sanitize (before @ Refresh # later) s) = writes_of a ?s"
    by (simp add: pipeline_run_def writes_of_def)
  with pipeline_step_writes [of sanitize e s'] show ?thesis by blast
qed
theorem superseded_cycle_never_writes_witness:
  "writes_of 1 (pipeline_run id
       ([Refresh, ListDone 1 (Inr [(1::nat, [''Ember'']), (2, [''Frost''])])]
        @ Refresh
        # [DetailDone 1 (Resolved [''burn'']), DetailDone 2 (Resolved [''chill'']), Commit 1,
           ListDone 2 (Inr [(2, [''Frost''])]), Commit 2])
       initial_pipeline) = []
   \<and> dom (pipeline_run id
       ([Refresh, ListDone 1 (Inr [(1::nat, [''Ember'']), (2, [''Frost''])])]
        @ Refresh
        # [DetailDone 1 (Resolved [''burn'']), DetailDone 2 (Resolved [''chill'']), Commit 1,
           ListDone 2 (Inr [(2, [''Frost''])]), Commit 2])
       initial_pipeline) = Table [FullRow 2 [''Frost''] [''chill'']]"
proof -
  have a: "1 \<le> latest (pipeline_run id
      [Refresh, ListDone 1 (Inr [(1::nat, [''Ember'']), (2, [''Frost''])])] initial_pipeline)"
    by (simp add: pipeline_run_def initial_pipeline_def)
  have b: "writes_of 1 (pipeline_run id
      [Refresh, ListDone 1 (Inr [(1::nat, [''Ember'']), (2, [''Frost''])])] initial_pipeline) = []"
    by (simp add: pipeline_run_def initial_pipeline_def writes_of_def)
  have c: "dom (pipeline_run id
       ([Refresh, ListDone 1 (Inr [(1::nat, [''Ember'']), (2, [''Frost''])])]
        @ Refresh
        # [DetailDone 1 (Resolved [''burn'']), DetailDone 2 (Resolved [''chill'']), Commit 1,
           ListDone 2 (Inr [(2, [''Frost''])]), Commit 2])
       initial_pipeline) = Table [FullRow 2 [''Frost''] [''chill'']]"
    by code_simp
  note th = superseded_cycle_never_writes [OF a,
      where later = "[DetailDone 1 (Resolved [''burn'']), DetailDone 2 (Resolved [''chill'']), Commit 1,
           ListDone 2 (Inr [(2, [''Frost''])]), Commit 2]"]
  from th have "writes_of 1 (pipeline_run id
       ([Refresh, ListDone 1 (Inr [(1::nat, [''Ember'']), (2, [''Frost''])])]
        @ Refresh
        # [DetailDone 1 (Resolved [''burn'']), DetailDone 2 (Resolved [''chill'']), Commit 1,
           ListDone 2 (Inr [(2, [''Frost''])]), Commit 2])
       initial_pipeline) = writes_of 1 (pipeline_run id
      [Refresh, ListDone 1 (Inr [(1::nat, [''Ember'']), (2, [''Frost''])])] initial_pipeline)"
    by (rule conjunct1)
  with b c show ?thesis by (simp only: simp_thms)
qed

subsection \<open>Refresh Orchestrator: partial detail failure\<close>












end
